theory Spec2Isabelle
  imports Complex_Main "HOL-Library.Word"
begin

section \<open>JavaScript strings\<close>

text \<open>
  A JavaScript string is a sequence of 16-bit UTF-16 code units; \<open>replace\<close> with a
  regular expression that has no \<open>u\<close> flag and \<open>substring\<close> both work on code
  units.  \<open>lit\<close> reads an ASCII literal of the source as such a sequence.
\<close>

type_synonym jschar = "16 word"
type_synonym jsstring = "jschar list"

definition lit :: "string \<Rightarrow> jsstring" where
  "lit s = map (\<lambda>c. of_nat (of_char c)) s"

text \<open>The character classes of the two regular expressions of \<open>createPdfFilename\<close>.\<close>

definition is_lower :: "jschar \<Rightarrow> bool" where
  "is_lower c = (0x61 \<le> c \<and> c \<le> 0x7A)"

definition is_upper :: "jschar \<Rightarrow> bool" where
  "is_upper c = (0x41 \<le> c \<and> c \<le> 0x5A)"

definition is_digit :: "jschar \<Rightarrow> bool" where
  "is_digit c = (0x30 \<le> c \<and> c \<le> 0x39)"

definition is_hyphen :: "jschar \<Rightarrow> bool" where
  "is_hyphen c = (c = 0x2D)"

definition is_underscore :: "jschar \<Rightarrow> bool" where
  "is_underscore c = (c = 0x5F)"

text \<open>
  The class \<open>\s\<close> of ECMAScript: the white space code points TAB, VT, FF, SP, NBSP,
  ZWNBSP and the Unicode space separators, and the line terminators LF, CR, LS, PS.
\<close>

definition is_space :: "jschar \<Rightarrow> bool" where
  "is_space c =
     (c = 0x09 \<or> c = 0x0A \<or> c = 0x0B \<or> c = 0x0C \<or> c = 0x0D \<or> c = 0x20 \<or>
      c = 0xA0 \<or> c = 0x1680 \<or> (0x2000 \<le> c \<and> c \<le> 0x200A) \<or>
      c = 0x2028 \<or> c = 0x2029 \<or> c = 0x202F \<or> c = 0x205F \<or> c = 0x3000 \<or>
      c = 0xFEFF)"

text \<open>The negated class \<open>[^a-zA-Z0-9\s-]\<close>.\<close>

definition special :: "jschar \<Rightarrow> bool" where
  "special c = (\<not> (is_lower c \<or> is_upper c \<or> is_digit c \<or> is_space c \<or> is_hyphen c))"

text \<open>
  \<open>s.replace(/[C]/g, r)\<close> for a pattern that matches one code unit of a class:
  every code unit of the class is replaced, every other one is copied.
\<close>

definition replace_each :: "(jschar \<Rightarrow> bool) \<Rightarrow> jsstring \<Rightarrow> jsstring \<Rightarrow> jsstring" where
  "replace_each P r s = concat (map (\<lambda>c. if P c then r else [c]) s)"

text \<open>
  \<open>s.replace(/[C]+/g, r)\<close>: scanning from the left, a match starts at the first code
  unit of the class and, \<open>+\<close> being greedy, takes every code unit of the class that
  follows; the scan goes on after the match.
\<close>

function replace_runs :: "(jschar \<Rightarrow> bool) \<Rightarrow> jsstring \<Rightarrow> jsstring \<Rightarrow> jsstring" where
  "replace_runs P r [] = []"
| "replace_runs P r (c # cs) =
     (if P c then r @ replace_runs P r (dropWhile P cs) else c # replace_runs P r cs)"
  by pat_completeness auto
termination
  by (relation "measure (\<lambda>(P, r, s). length s)") (auto simp: length_dropWhile_le less_Suc_eq_le)

text \<open>
  \<open>s.substring(start, stop)\<close> for non-negative integer arguments: both are clamped
  to the length, swapped when out of order, and the code units in between returned.
\<close>

definition substring :: "jsstring \<Rightarrow> nat \<Rightarrow> nat \<Rightarrow> jsstring" where
  "substring s start stop =
     (let a = min start (length s); b = min stop (length s);
          lo = min a b; hi = max a b
      in take (hi - lo) (drop lo s))"

subsection \<open>createPdfFilename\<close>

definition createPdfFilename :: "jsstring \<Rightarrow> jsstring" where
  "createPdfFilename paperTitle =
     substring
       (replace_runs is_space (lit ''_'')
          (replace_each special [] paperTitle))
       0 80
     @ lit ''.pdf''"

subsection \<open>The derivation in the words of the specification\<close>

text \<open>The characters that are kept: letters, digits, white space and hyphens.\<close>

definition kept_char :: "jschar \<Rightarrow> bool" where
  "kept_char c = (is_lower c \<or> is_upper c \<or> is_digit c \<or> is_space c \<or> is_hyphen c)"

text \<open>
  Each run of white space becomes one underscore: a white space character followed by
  another one is dropped, the last one of a run is the underscore.
\<close>

fun collapse_whitespace :: "jsstring \<Rightarrow> jsstring" where
  "collapse_whitespace [] = []"
| "collapse_whitespace [c] = (if is_space c then [0x5F] else [c])"
| "collapse_whitespace (c # d # cs) =
     (if is_space c
      then (if is_space d then collapse_whitespace (d # cs)
            else 0x5F # collapse_whitespace (d # cs))
      else c # collapse_whitespace (d # cs))"

definition filename_stem :: "jsstring \<Rightarrow> jsstring" where
  "filename_stem title = take 80 (collapse_whitespace (filter kept_char title))"

text \<open>The characters of \<open>[A-Za-z0-9_-]\<close>.\<close>

definition filename_char :: "jschar \<Rightarrow> bool" where
  "filename_char c = (is_lower c \<or> is_upper c \<or> is_digit c \<or> is_underscore c \<or> is_hyphen c)"

section \<open>The data of the chat route\<close>

text \<open>
  The interfaces of \<open>route.ts\<close>.  A field whose name is used by two interfaces is
  prefixed in one of them: \<open>match_id\<close> and \<open>match_score\<close> are \<open>id\<close> and \<open>score\<close> of
  \<open>PineconeMatch\<close>, \<open>md_content\<close> is \<open>content\<close> of the metadata, \<open>item_type\<close> is
  \<open>type\<close> of \<open>ContextItem\<close>.  An optional field (\<open>?:\<close>) is an \<open>option\<close>.  A score is
  the real number its double denotes (a comparison of two doubles is exact, and JSON
  has no \<open>NaN\<close>).
\<close>

text \<open>
  A page number is a JavaScript number that the handler prints and passes on and never
  computes with.  It is either an integer of magnitude below \<open>2^53\<close>, given by its sign
  and its magnitude (each of them is a double), or any other number (a fraction, a
  larger integer, an infinity), which is carried as the string that JavaScript prints
  for it.
\<close>

datatype jsnumber = SafeInteger bool "53 word" | OtherNumber jsstring

record Metadata =
  content_type :: jsstring
  paper_title :: jsstring
  page_number :: jsnumber
  md_content :: jsstring
  image_url :: "jsstring option"
  paper_id :: "jsstring option"

record PineconeMatch =
  match_id :: jsstring
  match_score :: "real option"
  metadata :: "Metadata option"

record ContextItem =
  item_type :: jsstring
  content :: jsstring
  source :: jsstring
  page :: jsnumber
  imageUrl :: "jsstring option"
  score :: real

text \<open>
  A turn of the conversation: \<open>{role, content}\<close>, \<open>msg_content\<close> being its \<open>content\<close>.
\<close>

record ChatMessage =
  role :: jsstring
  msg_content :: jsstring

text \<open>The entries of \<open>images\<close> and of \<open>sources\<close> in the response.\<close>

record ImageEntry =
  url :: "jsstring option"
  img_source :: jsstring
  img_page :: jsnumber
  description :: jsstring
  img_pdfFile :: jsstring
  img_score :: real

record SourceEntry =
  title :: jsstring
  src_page :: jsnumber
  pdfFile :: jsstring

text \<open>
  The JSON body of a response is either \<open>{error}\<close> or \<open>{message, images, sources}\<close>;
  \<open>NextResponse.json\<close> answers with status 200 unless a status is given.
\<close>

datatype body = ErrorBody jsstring | ChatBody jsstring "ImageEntry list" "SourceEntry list"

record Response =
  status :: nat
  body :: body

text \<open>
  The body of a request as the handler destructures it: \<open>message\<close> and \<open>chatHistory\<close>,
  each absent or present.
\<close>

record RequestBody =
  message :: "jsstring option"
  chatHistory :: "ChatMessage list option"

text \<open>
  What \<open>request.json()\<close> gives: it rejects a body that is not JSON; the value
  \<open>null\<close> cannot be destructured; from any other value the handler reads the two
  fields, typed as the interface of the route documents them (a string, and an array
  of turns).
\<close>

datatype NextRequest = NotJson | JsonNull | JsonBody RequestBody

text \<open>
  What is thrown inside the \<open>try\<close> block: \<open>request.json()\<close> rejects a body that is not
  JSON, reading a property of \<open>null\<close> or \<open>undefined\<close> is a \<open>TypeError\<close>, and a service
  call rejects with an error of its own.
\<close>

datatype error = SyntaxError | TypeError | ServiceError jsstring

text \<open>
  The three services the handler awaits, as functions from the argument of the call to
  the error it rejects with or the value it resolves to:
  \<^item> \<open>openai.embeddings.create\<close>: the \<open>data\<close> array, each element its \<open>embedding\<close>;
  \<^item> \<open>index.query\<close>: the \<open>matches\<close> field of the result, which may be absent;
  \<^item> \<open>openai.chat.completions.create\<close>: the \<open>choices\<close> array, each element its
    \<open>message.content\<close>, which may be \<open>null\<close>.
  The other arguments of the calls (model names, 1536 dimensions, \<open>topK: 12\<close>,
  temperature and \<open>max_tokens\<close>) are constants.
\<close>

record Services =
  embeddings_create :: "jsstring \<Rightarrow> error + real list list"
  index_query :: "real list \<Rightarrow> error + PineconeMatch list option"
  chat_completions_create :: "ChatMessage list \<Rightarrow> error + jsstring option list"

text \<open>What the handler does to the outside, in order.\<close>

datatype call =
    Embed jsstring
  | Query "real list"
  | Generate "ChatMessage list"
  | ConsoleError error

section \<open>JavaScript operators and array methods\<close>

text \<open>\<open>x || 0\<close> on an optional number: \<open>undefined\<close> and \<open>0\<close> are falsy.\<close>

definition or_zero :: "real option \<Rightarrow> real" where
  "or_zero x = (case x of None \<Rightarrow> 0 | Some s \<Rightarrow> if s = 0 then 0 else s)"

text \<open>\<open>x || ''\<close> on a string that may be \<open>null\<close>.\<close>

definition or_empty :: "jsstring option \<Rightarrow> jsstring" where
  "or_empty x = (case x of None \<Rightarrow> [] | Some s \<Rightarrow> s)"

text \<open>\<open>x || []\<close> on an array that may be absent; an empty array is truthy.\<close>

definition or_nil :: "'a list option \<Rightarrow> 'a list" where
  "or_nil x = (case x of None \<Rightarrow> [] | Some xs \<Rightarrow> xs)"

text \<open>The truth value of an optional string: \<open>undefined\<close> and the empty string are falsy.\<close>

definition truthy :: "jsstring option \<Rightarrow> bool" where
  "truthy x = (case x of None \<Rightarrow> False | Some s \<Rightarrow> s \<noteq> [])"

text \<open>
  \<open>Array.prototype.slice\<close>: a negative index counts from the end, both indices are
  clamped to the array, and nothing is returned when they are out of order.
\<close>

definition relative_index :: "nat \<Rightarrow> int \<Rightarrow> nat" where
  "relative_index len k = (if k < 0 then nat (max (int len + k) 0) else min (nat k) len)"

definition slice :: "'a list \<Rightarrow> int \<Rightarrow> int \<Rightarrow> 'a list" where
  "slice xs start stop =
     (let k = relative_index (length xs) start;
          final = relative_index (length xs) stop
      in take (final - k) (drop k xs))"

definition slice_from :: "'a list \<Rightarrow> int \<Rightarrow> 'a list" where
  "slice_from xs start = drop (relative_index (length xs) start) xs"

text \<open>
  A page number in a template literal, \<open>Number::toString\<close>: an integer of magnitude
  below \<open>2^53\<close> is printed as its decimal digits, after a minus sign when it is
  negative (\<open>-0\<close> is printed as \<open>0\<close>); any other number is printed as the string it is
  carried by.
\<close>

fun digits_of :: "nat \<Rightarrow> jsstring" where
  "digits_of n =
     (if n < 10 then [0x30 + of_nat n]
      else digits_of (n div 10) @ [0x30 + of_nat (n mod 10)])"

declare digits_of.simps [simp del]

fun number_to_string :: "jsnumber \<Rightarrow> jsstring" where
  "number_to_string (SafeInteger negative magnitude) =
     (if negative \<and> magnitude \<noteq> 0 then 0x2D # digits_of (unat magnitude)
      else digits_of (unat magnitude))"
| "number_to_string (OtherNumber printed) = printed"

section \<open>Processing the search results\<close>

text \<open>
  The filter of \<open>contextItems\<close>: \<open>match.metadata && (match.score || 0) > 0.3\<close>.  The
  literal \<open>0.3\<close> of the source is the double next below \<open>3/10\<close>, and no double lies
  between the two, so a double is greater than the one exactly when it is greater than
  the other.
\<close>

definition keep_match :: "PineconeMatch \<Rightarrow> bool" where
  "keep_match m = (metadata m \<noteq> None \<and> or_zero (match_score m) > 0.3)"

definition item_of :: "PineconeMatch \<Rightarrow> Metadata \<Rightarrow> ContextItem" where
  "item_of m md =
     \<lparr>item_type = content_type md,
      content = md_content md,
      source = paper_title md,
      page = page_number md,
      imageUrl = image_url md,
      score = or_zero (match_score m)\<rparr>"

text \<open>
  \<open>filter\<close>, then \<open>map\<close>.  The \<open>map\<close> reads \<open>match.metadata!\<close>; the filter has removed
  every match without metadata before.
\<close>

definition contextItems :: "PineconeMatch list \<Rightarrow> ContextItem list" where
  "contextItems matches =
     concat (map (\<lambda>m. case metadata m of None \<Rightarrow> [] | Some md \<Rightarrow> [item_of m md])
       (filter keep_match matches))"

definition textResults :: "ContextItem list \<Rightarrow> ContextItem list" where
  "textResults items = filter (\<lambda>item. item_type item = lit ''text'') items"

definition imageResults :: "ContextItem list \<Rightarrow> ContextItem list" where
  "imageResults items =
     filter (\<lambda>item. item_type item = lit ''image'' \<and> truthy (imageUrl item)) items"

text \<open>
  \<open>uniquePapers\<close> and \<open>paperMapping\<close> are computed from \<open>contextItems\<close> and never read;
  they are left out.
\<close>

subsection \<open>The context string\<close>

definition text_block :: "ContextItem \<Rightarrow> jsstring" where
  \<open>text_block item =
     lit ''[Paper: "'' @ source item @ lit ''", Page '' @ number_to_string (page item)
     @ lit '']\<newline>'' @ content item @ lit ''\<newline>\<newline>''\<close>

definition figure_block :: "ContextItem \<Rightarrow> jsstring" where
  \<open>figure_block item =
     lit ''[Figure from: "'' @ source item @ lit ''", Page '' @ number_to_string (page item)
     @ lit '']\<newline>Figure Description: '' @ content item @ lit ''\<newline>\<newline>''\<close>

text \<open>
  \<open>contextString\<close> starts empty; each \<open>forEach\<close> appends one block per item to it, after
  the heading of its section.
\<close>

definition contextString :: "ContextItem list \<Rightarrow> ContextItem list \<Rightarrow> jsstring" where
  "contextString texts images =
     (let s0 = [];
          s1 = (if length texts > 0
                then foldl (\<lambda>s item. s @ text_block item)
                       (s0 @ lit ''### Relevant Text from Research Papers:\<newline>\<newline>'') texts
                else s0);
          s2 = (if length images > 0
                then foldl (\<lambda>s item. s @ figure_block item)
                       (s1 @ lit ''### Relevant Figures/Charts Available:\<newline>\<newline>'') images
                else s1)
      in s2)"

subsection \<open>The conversation sent to the model\<close>

definition systemPrompt :: jsstring where
  \<open>systemPrompt = lit ''You are an expert research assistant specializing in Himalayan climate, glaciology, hydrology, and environmental science. You answer questions using a comprehensive knowledge base of peer-reviewed research papers.

IMPORTANT INSTRUCTIONS FOR CITATIONS:
1. When citing information, ALWAYS use the EXACT full paper title provided in the context.
2. Format citations as: (Paper: "Full Paper Title", Page X).
3. NEVER use generic references like "Source 1" or "Source 8" - always use the actual paper name.
4. Be specific about which paper each piece of information comes from.

IMPORTANT INSTRUCTIONS FOR FIGURES:
1. When figures/charts are relevant to the answer, MENTION them explicitly.
2. Say something like "A relevant figure from [Paper Name] on page X illustrates this...".
3. Describe what the figure shows if the description is helpful.

Your role:
- Answer questions accurately using ONLY the provided context.
- Cite specific papers by their FULL TITLE and page numbers.
- Explain complex concepts clearly while maintaining scientific accuracy.
- If the context doesn't contain enough information, acknowledge this honestly.
- When relevant figures exist, reference them to support your answer.

Remember: Users will see the actual images, so describe what they show and why they're relevant.''\<close>

definition user_turn :: "jsstring \<Rightarrow> jsstring \<Rightarrow> ChatMessage" where
  "user_turn context_string msg =
     \<lparr>role = lit ''user'',
      msg_content =
        lit ''Research Context:\<newline>'' @ context_string
        @ lit ''\<newline>\<newline>User Question: '' @ msg
        @ lit ''\<newline>\<newline>Answer the user's question using only the research context above. If relevant figures are available, mention them in your response.''\<rparr>"

definition messages :: "jsstring \<Rightarrow> ChatMessage list \<Rightarrow> jsstring \<Rightarrow> ChatMessage list" where
  "messages msg history context_string =
     [\<lparr>role = lit ''system'', msg_content = systemPrompt\<rparr>]
     @ map (\<lambda>m. \<lparr>role = role m, msg_content = msg_content m\<rparr>) (slice_from history (- 6))
     @ [user_turn context_string msg]"

subsection \<open>The sources\<close>

text \<open>
  \<open>sourceMap\<close> is a plain object, created as \<open>{}\<close>: its own properties in the order of
  their creation.  Reading \<open>sourceMap[key]\<close> finds an own property or, failing that, a
  property of \<open>Object.prototype\<close>; the values stored are objects and the inherited
  ones are functions (for \<open>__proto__\<close>, the prototype itself), so each of them is truthy.
\<close>

type_synonym sourceMap = "(jsstring \<times> SourceEntry) list"

definition object_prototype_keys :: "jsstring list" where
  "object_prototype_keys =
     map lit [''constructor'', ''__defineGetter__'', ''__defineSetter__'',
       ''hasOwnProperty'', ''__lookupGetter__'', ''__lookupSetter__'', ''isPrototypeOf'',
       ''propertyIsEnumerable'', ''toString'', ''valueOf'', ''__proto__'',
       ''toLocaleString'']"

definition has_property :: "sourceMap \<Rightarrow> jsstring \<Rightarrow> bool" where
  "has_property sm key = (map_of sm key \<noteq> None \<or> List.member object_prototype_keys key)"

definition add_source :: "sourceMap \<Rightarrow> ContextItem \<Rightarrow> sourceMap" where
  "add_source sm t =
     (if \<not> has_property sm (source t)
      then sm @ [(source t,
                  \<lparr>title = source t, src_page = page t, pdfFile = createPdfFilename (source t)\<rparr>)]
      else sm)"

definition build_sourceMap :: "ContextItem list \<Rightarrow> sourceMap" where
  "build_sourceMap texts = foldl add_source [] texts"

text \<open>
  \<open>Object.keys\<close> lists the keys that are array indices first, in ascending numeric
  order, and the other keys after them in the order of their creation.  An array index
  is the canonical decimal numeral of an integer below \<open>2^32 - 1\<close>.
\<close>

definition index_value :: "jsstring \<Rightarrow> int" where
  "index_value key = foldl (\<lambda>n c. 10 * n + uint (c - 0x30)) 0 key"

definition is_array_index :: "jsstring \<Rightarrow> bool" where
  "is_array_index key =
     (key \<noteq> [] \<and> list_all is_digit key \<and> (key = [0x30] \<or> hd key \<noteq> 0x30)
      \<and> index_value key < 2 ^ 32 - 1)"

definition object_keys :: "sourceMap \<Rightarrow> jsstring list" where
  "object_keys sm =
     (let keys = map fst sm
      in sort_key index_value (filter is_array_index keys)
         @ filter (\<lambda>key. \<not> is_array_index key) keys)"

definition sources :: "sourceMap \<Rightarrow> SourceEntry list" where
  "sources sm =
     concat (map (\<lambda>key. case map_of sm key of None \<Rightarrow> [] | Some entry \<Rightarrow> [entry])
       (object_keys sm))"

subsection \<open>The response\<close>

definition image_entry :: "ContextItem \<Rightarrow> ImageEntry" where
  "image_entry img =
     \<lparr>url = imageUrl img,
      img_source = source img,
      img_page = page img,
      description = content img,
      img_pdfFile = createPdfFilename (source img),
      img_score = score img\<rparr>"

definition response_images :: "ContextItem list \<Rightarrow> ImageEntry list" where
  "response_images images = map image_entry (slice images 0 4)"

definition response_sources :: "ContextItem list \<Rightarrow> SourceEntry list" where
  "response_sources texts = slice (sources (build_sourceMap texts)) 0 6"

definition success :: "jsstring \<Rightarrow> ContextItem list \<Rightarrow> ContextItem list \<Rightarrow> Response" where
  "success assistantMessage texts images =
     \<lparr>status = 200,
      body = ChatBody assistantMessage (response_images images) (response_sources texts)\<rparr>"

definition bad_request :: Response where
  "bad_request = \<lparr>status = 400, body = ErrorBody (lit ''Message is required'')\<rparr>"

definition server_error :: Response where
  "server_error =
     \<lparr>status = 500,
      body = ErrorBody (lit ''Failed to process your request. Please try again.'')\<rparr>"

section \<open>The handler\<close>

text \<open>
  The \<open>catch\<close> block: whatever was thrown is written to the console and the answer is
  the generic error.  \<open>calls\<close> is what the handler had done before.
\<close>

definition failure :: "call list \<Rightarrow> error \<Rightarrow> Response \<times> call list" where
  "failure calls e = (server_error, calls @ [ConsoleError e])"

text \<open>
  The part of \<open>POST\<close> after the search: the results are processed, the model is
  called, and the response is put together.
\<close>

definition answer ::
    "Services \<Rightarrow> call list \<Rightarrow> jsstring \<Rightarrow> ChatMessage list \<Rightarrow> PineconeMatch list
      \<Rightarrow> Response \<times> call list" where
  "answer svc calls msg history matches =
     (let items = contextItems matches;
          texts = textResults items;
          images = imageResults items;
          conversation = messages msg history (contextString texts images)
      in case chat_completions_create svc conversation of
           Inl e \<Rightarrow> failure (calls @ [Generate conversation]) e
         | Inr choices \<Rightarrow>
             (case choices of
                [] \<Rightarrow> failure (calls @ [Generate conversation]) TypeError
              | choice # _ \<Rightarrow>
                  (success (or_empty choice) texts images, calls @ [Generate conversation])))"

text \<open>
  \<open>POST\<close>: the response and the calls made, in order.
\<close>

definition POST :: "Services \<Rightarrow> NextRequest \<Rightarrow> Response \<times> call list" where
  "POST svc request =
     (case request of
        NotJson \<Rightarrow> failure [] SyntaxError
      | JsonNull \<Rightarrow> failure [] TypeError
      | JsonBody b \<Rightarrow>
          if \<not> truthy (message b) then (bad_request, [])
          else
            (let msg = or_empty (message b);
                 history = (case chatHistory b of None \<Rightarrow> [] | Some h \<Rightarrow> h)
             in case embeddings_create svc msg of
                  Inl e \<Rightarrow> failure [Embed msg] e
                | Inr embedding_data \<Rightarrow>
                    (case embedding_data of
                       [] \<Rightarrow> failure [Embed msg] TypeError
                     | queryEmbedding # _ \<Rightarrow>
                         (case index_query svc queryEmbedding of
                            Inl e \<Rightarrow> failure [Embed msg, Query queryEmbedding] e
                          | Inr found \<Rightarrow>
                              answer svc [Embed msg, Query queryEmbedding] msg history
                                (or_nil found)))))"


section \<open>What the handler computes from the matches\<close>

text \<open>
  The context string, the images and the sources of a response, as functions of the
  matches the search returned.
\<close>

definition assembled_context :: "PineconeMatch list \<Rightarrow> jsstring" where
  "assembled_context matches =
     contextString (textResults (contextItems matches)) (imageResults (contextItems matches))"

definition images_of :: "PineconeMatch list \<Rightarrow> ImageEntry list" where
  "images_of matches = response_images (imageResults (contextItems matches))"

definition sources_of :: "PineconeMatch list \<Rightarrow> SourceEntry list" where
  "sources_of matches = response_sources (textResults (contextItems matches))"

text \<open>A call of the log that the service rejects.\<close>

definition rejected :: "Services \<Rightarrow> call \<Rightarrow> bool" where
  "rejected svc c =
     (case c of
        Embed input \<Rightarrow> isl (embeddings_create svc input)
      | Query v \<Rightarrow> isl (index_query svc v)
      | Generate conversation \<Rightarrow> isl (chat_completions_create svc conversation)
      | ConsoleError e \<Rightarrow> False)"

text \<open>The last \<open>n\<close> turns of a history, in their order.\<close>

definition last_turns :: "nat \<Rightarrow> ChatMessage list \<Rightarrow> ChatMessage list" where
  "last_turns n history = rev (take n (rev history))"

text \<open>
  The context string in the words of the specification: the text items and the figure
  items are picked from the matches in one pass, in the order of the matches, and a
  section is a heading followed by its blocks, or nothing when there is no block.
\<close>

definition section_of :: "jsstring \<Rightarrow> jsstring list \<Rightarrow> jsstring" where
  "section_of heading blocks = (if blocks = [] then [] else heading @ concat blocks)"

definition text_items :: "PineconeMatch list \<Rightarrow> ContextItem list" where
  "text_items matches =
     concat (map (\<lambda>m. case metadata m of
                        None \<Rightarrow> []
                      | Some md \<Rightarrow>
                          if or_zero (match_score m) > 0.3 \<and> content_type md = lit ''text''
                          then [item_of m md] else [])
       matches)"

definition figure_items :: "PineconeMatch list \<Rightarrow> ContextItem list" where
  "figure_items matches =
     concat (map (\<lambda>m. case metadata m of
                        None \<Rightarrow> []
                      | Some md \<Rightarrow>
                          if or_zero (match_score m) > 0.3 \<and> content_type md = lit ''image''
                            \<and> truthy (image_url md)
                          then [item_of m md] else [])
       matches)"

text \<open>
  A decimal numeral: digits, with no leading zero, and the number it denotes.
\<close>

definition decimal_value :: "jsstring \<Rightarrow> int" where
  "decimal_value ds = foldl (\<lambda>n c. 10 * n + uint (c - 0x30)) 0 ds"

definition decimal_numeral :: "jsstring \<Rightarrow> bool" where
  "decimal_numeral ds = (ds \<noteq> [] \<and> list_all is_digit ds \<and> (ds = [0x30] \<or> hd ds \<noteq> 0x30))"

text \<open>
  The order in which the keys of an object are listed: the titles that are the decimal
  numeral of an integer below \<open>2^32 - 1\<close> first, by that integer, then the other titles
  in the order given.
\<close>

definition canonical_index :: "jsstring \<Rightarrow> bool" where
  "canonical_index t = (decimal_numeral t \<and> decimal_value t < 2 ^ 32 - 1)"

definition key_order :: "jsstring list \<Rightarrow> jsstring list" where
  "key_order titles =
     sort_key decimal_value (filter canonical_index titles)
     @ filter (\<lambda>t. \<not> canonical_index t) titles"

text \<open>
  Deduplication by title in the words of the specification: going through the text
  items in order, an item is kept when its title has not been seen before; an entry of
  the sources is made of the title, the page of that item and the file name.
\<close>

fun first_seen :: "jsstring list \<Rightarrow> ContextItem list \<Rightarrow> ContextItem list" where
  "first_seen seen [] = []"
| "first_seen seen (t # ts) =
     (if source t \<in> set seen then first_seen seen ts
      else t # first_seen (source t # seen) ts)"

definition entry_of :: "ContextItem \<Rightarrow> jsstring \<times> SourceEntry" where
  "entry_of t =
     (source t,
      \<lparr>title = source t, src_page = page t, pdfFile = createPdfFilename (source t)\<rparr>)"

section \<open>Example inputs\<close>

definition text_match :: "string \<Rightarrow> 53 word \<Rightarrow> real \<Rightarrow> PineconeMatch" where
  "text_match t p s =
     \<lparr>match_id = lit t, match_score = Some s,
      metadata = Some \<lparr>content_type = lit ''text'', paper_title = lit t,
        page_number = SafeInteger False p,
        md_content = lit ''passage'', image_url = None, paper_id = None\<rparr>\<rparr>"

definition image_match ::
    "string \<Rightarrow> 53 word \<Rightarrow> real \<Rightarrow> jsstring option \<Rightarrow> PineconeMatch" where
  "image_match t p s u =
     \<lparr>match_id = lit t, match_score = Some s,
      metadata = Some \<lparr>content_type = lit ''image'', paper_title = lit t,
        page_number = SafeInteger False p,
        md_content = lit ''caption'', image_url = u, paper_id = None\<rparr>\<rparr>"

text \<open>Services that succeed: the search returns the given matches.\<close>

definition example_services :: "PineconeMatch list \<Rightarrow> Services" where
  "example_services ms =
     \<lparr>embeddings_create = \<lambda>input. Inr [[0.5]],
      index_query = \<lambda>v. Inr (Some ms),
      chat_completions_create = \<lambda>conversation. Inr [Some (lit ''answer'')]\<rparr>"

definition example_request :: "NextRequest" where
  "example_request = JsonBody \<lparr>message = Some (lit ''question''), chatHistory = None\<rparr>"

text \<open>Services of which one call is rejected.\<close>

definition failing_embedding :: Services where
  "failing_embedding =
     (example_services [])\<lparr>embeddings_create := \<lambda>input. Inl (ServiceError (lit ''embedding''))\<rparr>"

definition failing_search :: Services where
  "failing_search =
     (example_services [])\<lparr>index_query := \<lambda>v. Inl (ServiceError (lit ''search''))\<rparr>"

definition failing_generation :: Services where
  "failing_generation =
     (example_services [])\<lparr>chat_completions_create :=
        \<lambda>conversation. Inl (ServiceError (lit ''generation''))\<rparr>"

text \<open>
  Twelve matches of seven papers, five of them figures, and a history of eight turns.
\<close>

definition twelve_matches :: "PineconeMatch list" where
  "twelve_matches =
     [text_match ''A'' 1 0.9, image_match ''A'' 2 0.9 (Some (lit ''u1'')),
      text_match ''B'' 3 0.9, image_match ''B'' 4 0.8 (Some (lit ''u2'')),
      text_match ''C'' 5 0.8, image_match ''C'' 6 0.8 (Some (lit ''u3'')),
      text_match ''D'' 7 0.7, image_match ''D'' 8 0.7 (Some (lit ''u4'')),
      text_match ''E'' 9 0.7, image_match ''E'' 10 0.6 (Some (lit ''u5'')),
      text_match ''F'' 11 0.6, text_match ''G'' 12 0.5]"

definition eight_turns :: "ChatMessage list" where
  "eight_turns =
     [\<lparr>role = lit ''user'', msg_content = lit ''q1''\<rparr>,
      \<lparr>role = lit ''assistant'', msg_content = lit ''a1''\<rparr>,
      \<lparr>role = lit ''user'', msg_content = lit ''q2''\<rparr>,
      \<lparr>role = lit ''assistant'', msg_content = lit ''a2''\<rparr>,
      \<lparr>role = lit ''user'', msg_content = lit ''q3''\<rparr>,
      \<lparr>role = lit ''assistant'', msg_content = lit ''a3''\<rparr>,
      \<lparr>role = lit ''user'', msg_content = lit ''q4''\<rparr>,
      \<lparr>role = lit ''assistant'', msg_content = lit ''a4''\<rparr>]"

text \<open>
  The scenario of the specification: two passages of one paper, on pages 5 and 12, and
  one of its figures.
\<close>

definition scenario :: "PineconeMatch list" where
  "scenario =
     [text_match ''Paper'' 5 0.81, text_match ''Paper'' 12 0.45,
      image_match ''Paper'' 7 0.6 (Some (lit ''u''))]"

section \<open>Properties of createPdfFilename\<close>

lemma lit_append: "lit (a @ b) = lit a @ lit b"
  by (simp add: lit_def)

lemma lit_underscore: "lit ''_'' = [0x5F]"
  by (simp add: lit_def)

lemma replace_each_strip: "replace_each special [] s = filter kept_char s"
  by (induction s) (simp_all add: replace_each_def special_def kept_char_def)

lemma replace_runs_collapse:
  "replace_runs is_space [0x5F] s = collapse_whitespace s"
proof (induction s rule: collapse_whitespace.induct)
  case 1
  show ?case by simp
next
  case (2 c)
  show ?case by simp
next
  case (3 c d cs)
  show ?case
  proof (cases "is_space c")
    case False
    with 3 show ?thesis by simp
  next
    case True
    note c = this
    show ?thesis
    proof (cases "is_space d")
      case True
      with c 3 show ?thesis by simp
    next
      case False
      with c 3 show ?thesis by simp
    qed
  qed
qed

lemma substring_0: "substring s 0 n = take n s"
  by (simp add: substring_def Let_def min_def)

lemma not_space_underscore: "\<not> is_space 0x5F"
  by (simp add: is_space_def)

lemma collapse_whitespace_chars:
  "list_all kept_char s \<Longrightarrow> list_all filename_char (collapse_whitespace s)"
proof (induction s rule: collapse_whitespace.induct)
  case 1
  show ?case by simp
next
  case (2 c)
  then show ?case
    by (auto simp: kept_char_def filename_char_def is_underscore_def)
next
  case (3 c d cs)
  then show ?case
    by (auto simp: kept_char_def filename_char_def is_underscore_def)
qed

lemma filename_stem_chars: "list_all filename_char (filename_stem t)"
proof -
  have "list_all kept_char (filter kept_char t)"
    by (simp add: list_all_iff)
  then have "list_all filename_char (collapse_whitespace (filter kept_char t))"
    by (rule collapse_whitespace_chars)
  then show ?thesis
    unfolding filename_stem_def list_all_iff by (auto dest: in_set_takeD)
qed

text \<open>
  C3: the file name is a function of the title alone; it is the title with the
  characters outside letters, digits, white space and hyphens removed, each run of white
  space replaced by a single underscore, the result cut to at most 80 characters, and
  \<open>.pdf\<close> appended; the part before \<open>.pdf\<close> has at most 80 characters, each of
  them a letter, a digit, an underscore or a hyphen.
\<close>

theorem createPdfFilename_spec:
  "createPdfFilename t = filename_stem t @ lit ''.pdf''
   \<and> length (filename_stem t) \<le> 80
   \<and> list_all filename_char (filename_stem t)
   \<and> (\<forall>t'. t' = t \<longrightarrow> createPdfFilename t' = createPdfFilename t)"
proof -
  have "createPdfFilename t = filename_stem t @ lit ''.pdf''"
    by (simp add: createPdfFilename_def filename_stem_def lit_underscore
        replace_each_strip replace_runs_collapse substring_0)
  moreover have "length (filename_stem t) \<le> 80"
    by (simp add: filename_stem_def)
  ultimately show ?thesis
    using filename_stem_chars by simp
qed

theorem createPdfFilename_spec_witness:
  "createPdfFilename (lit ''Glacier  Lakes: (GLOF) risk-2020'')
     = lit ''Glacier_Lakes_GLOF_risk-2020.pdf''
   \<and> filename_stem (lit ''Glacier  Lakes: (GLOF) risk-2020'')
     = lit ''Glacier_Lakes_GLOF_risk-2020''
   \<and> length (filename_stem (lit ''Glacier  Lakes: (GLOF) risk-2020'')) \<le> 80
   \<and> list_all filename_char (filename_stem (lit ''Glacier  Lakes: (GLOF) risk-2020''))"
proof -
  have stem: "filename_stem (lit ''Glacier  Lakes: (GLOF) risk-2020'')
      = lit ''Glacier_Lakes_GLOF_risk-2020''"
    by (simp add: filename_stem_def lit_def kept_char_def is_lower_def is_upper_def
        is_digit_def is_space_def is_hyphen_def)
  show ?thesis
    using createPdfFilename_spec [of "lit ''Glacier  Lakes: (GLOF) risk-2020''"]
    by (simp add: stem lit_append [symmetric])
qed

section \<open>Matches that are dropped\<close>

lemma contextItems_append: "contextItems (xs @ ys) = contextItems xs @ contextItems ys"
  by (simp add: contextItems_def)

lemma contextItems_single:
  "contextItems [m] = (case metadata m of None \<Rightarrow> [] | Some md \<Rightarrow>
      if or_zero (match_score m) > 0.3 then [item_of m md] else [])"
  by (simp add: contextItems_def keep_match_def split: option.splits)

lemma contextItems_insert:
  "contextItems (xs @ m # ys) = contextItems xs @ contextItems [m] @ contextItems ys"
  using contextItems_append [of xs "[m] @ ys"] contextItems_append [of "[m]" ys] by simp

lemma contextItems_dropped:
  assumes "\<not> keep_match m"
  shows "contextItems (xs @ m # ys) = contextItems (xs @ ys)"
proof -
  have "contextItems [m] = []"
    using assms by (simp add: contextItems_def)
  then show ?thesis
    using contextItems_insert [of xs m ys] contextItems_append [of xs ys] by simp
qed

lemma answer_cong_items:
  assumes "textResults (contextItems a) = textResults (contextItems b)"
    and "imageResults (contextItems a) = imageResults (contextItems b)"
  shows "answer svc calls msg history a = answer svc calls msg history b"
  using assms by (simp add: answer_def Let_def split: sum.splits list.splits)

lemma answer_index_query: "answer (svc\<lparr>index_query := f\<rparr>) = answer svc"
  by (simp add: answer_def fun_eq_iff)

lemma POST_matches_cong:
  assumes "\<And>calls msg history. answer svc calls msg history a = answer svc calls msg history b"
  shows "POST (svc\<lparr>index_query := \<lambda>v. Inr (Some a)\<rparr>) request
       = POST (svc\<lparr>index_query := \<lambda>v. Inr (Some b)\<rparr>) request"
  using assms
  by (simp add: POST_def answer_index_query or_nil_def Let_def
      cong: NextRequest.case_cong sum.case_cong list.case_cong if_cong)

lemma not_keep_low:
  assumes "metadata m = None \<or> (\<exists>s. match_score m = Some s \<and> s \<le> 0.3)"
  shows "\<not> keep_match m"
  using assms by (auto simp: keep_match_def or_zero_def)

text \<open>
  C1: a match without metadata, or with a score of at most 0.3, contributes nothing.
  Wherever it stands among the matches the search returns, the context string, the
  images and the sources are those computed without it, and so are the response of the
  handler and the calls it makes.
\<close>

theorem below_floor_contributes_nothing:
  assumes "metadata m = None \<or> (\<exists>s. match_score m = Some s \<and> s \<le> 0.3)"
  shows "assembled_context (xs @ m # ys) = assembled_context (xs @ ys)
    \<and> images_of (xs @ m # ys) = images_of (xs @ ys)
    \<and> sources_of (xs @ m # ys) = sources_of (xs @ ys)
    \<and> POST (svc\<lparr>index_query := \<lambda>v. Inr (Some (xs @ m # ys))\<rparr>) request
      = POST (svc\<lparr>index_query := \<lambda>v. Inr (Some (xs @ ys))\<rparr>) request"
proof -
  have items: "contextItems (xs @ m # ys) = contextItems (xs @ ys)"
    using assms by (intro contextItems_dropped not_keep_low)
  have "POST (svc\<lparr>index_query := \<lambda>v. Inr (Some (xs @ m # ys))\<rparr>) request
      = POST (svc\<lparr>index_query := \<lambda>v. Inr (Some (xs @ ys))\<rparr>) request"
    by (rule POST_matches_cong, rule answer_cong_items) (simp_all add: items)
  then show ?thesis
    by (simp add: assembled_context_def images_of_def sources_of_def items)
qed

theorem below_floor_contributes_nothing_witness:
  "match_score (text_match ''Low'' 3 0.3) = Some 0.3 \<and> (0.3 :: real) \<le> 0.3
   \<and> assembled_context [text_match ''Paper'' 5 0.81, text_match ''Low'' 3 0.3]
     = assembled_context [text_match ''Paper'' 5 0.81]
   \<and> images_of [text_match ''Paper'' 5 0.81, text_match ''Low'' 3 0.3]
     = images_of [text_match ''Paper'' 5 0.81]
   \<and> sources_of [text_match ''Paper'' 5 0.81, text_match ''Low'' 3 0.3]
     = sources_of [text_match ''Paper'' 5 0.81]
   \<and> POST (example_services [text_match ''Paper'' 5 0.81, text_match ''Low'' 3 0.3])
         example_request
     = POST (example_services [text_match ''Paper'' 5 0.81]) example_request"
proof -
  have low: "match_score (text_match ''Low'' 3 0.3) = Some 0.3"
    by (simp add: text_match_def)
  have hyp: "metadata (text_match ''Low'' 3 0.3) = None
      \<or> (\<exists>s. match_score (text_match ''Low'' 3 0.3) = Some s \<and> s \<le> 0.3)"
  proof (intro disjI2 exI conjI)
    show "match_score (text_match ''Low'' 3 0.3) = Some 0.3" by (rule low)
    show "(0.3 :: real) \<le> 0.3" by simp
  qed
  have svc: "example_services ms = (example_services [])\<lparr>index_query := \<lambda>v. Inr (Some ms)\<rparr>" for ms
    by (simp add: example_services_def)
  show ?thesis
    using below_floor_contributes_nothing [OF hyp, where xs = "[text_match ''Paper'' 5 0.81]"
        and ys = "[]" and svc = "example_services []" and request = example_request] low
    by (simp add: svc [symmetric])
qed

text \<open>
  C10: a match with no score is given the score 0 by the filter and is discarded, with
  or without metadata: the context string, the images, the sources and the whole
  outcome of the handler are those computed without it.
\<close>

theorem missing_score_discarded:
  assumes "match_score m = None"
  shows "or_zero (match_score m) = 0
    \<and> \<not> keep_match m
    \<and> assembled_context (xs @ m # ys) = assembled_context (xs @ ys)
    \<and> images_of (xs @ m # ys) = images_of (xs @ ys)
    \<and> sources_of (xs @ m # ys) = sources_of (xs @ ys)
    \<and> POST (svc\<lparr>index_query := \<lambda>v. Inr (Some (xs @ m # ys))\<rparr>) request
      = POST (svc\<lparr>index_query := \<lambda>v. Inr (Some (xs @ ys))\<rparr>) request"
proof -
  have zero: "or_zero (match_score m) = 0"
    using assms by (simp add: or_zero_def)
  then have drop: "\<not> keep_match m"
    by (simp add: keep_match_def)
  then have items: "contextItems (xs @ m # ys) = contextItems (xs @ ys)"
    by (rule contextItems_dropped)
  have "POST (svc\<lparr>index_query := \<lambda>v. Inr (Some (xs @ m # ys))\<rparr>) request
      = POST (svc\<lparr>index_query := \<lambda>v. Inr (Some (xs @ ys))\<rparr>) request"
    by (rule POST_matches_cong, rule answer_cong_items) (simp_all add: items)
  then show ?thesis
    using zero drop
    by (simp add: assembled_context_def images_of_def sources_of_def items)
qed

theorem missing_score_discarded_witness:
  "match_score ((text_match ''Paper'' 9 0.9)\<lparr>match_score := None\<rparr>) = None
   \<and> metadata ((text_match ''Paper'' 9 0.9)\<lparr>match_score := None\<rparr>) \<noteq> None
   \<and> or_zero (match_score ((text_match ''Paper'' 9 0.9)\<lparr>match_score := None\<rparr>)) = 0
   \<and> sources_of [(text_match ''Paper'' 9 0.9)\<lparr>match_score := None\<rparr>, text_match ''Paper'' 5 0.81]
     = sources_of [text_match ''Paper'' 5 0.81]
   \<and> assembled_context [(text_match ''Paper'' 9 0.9)\<lparr>match_score := None\<rparr>, text_match ''Paper'' 5 0.81]
     = assembled_context [text_match ''Paper'' 5 0.81]
   \<and> POST (example_services
          [(text_match ''Paper'' 9 0.9)\<lparr>match_score := None\<rparr>, text_match ''Paper'' 5 0.81])
         example_request
     = POST (example_services [text_match ''Paper'' 5 0.81]) example_request"
proof -
  have none: "match_score ((text_match ''Paper'' 9 0.9)\<lparr>match_score := None\<rparr>) = None"
    by simp
  have md: "metadata ((text_match ''Paper'' 9 0.9)\<lparr>match_score := None\<rparr>) \<noteq> None"
    by (simp add: text_match_def)
  have svc: "example_services ms = (example_services [])\<lparr>index_query := \<lambda>v. Inr (Some ms)\<rparr>" for ms
    by (simp add: example_services_def)
  show ?thesis
    using missing_score_discarded [OF none, where xs = "[]"
        and ys = "[text_match ''Paper'' 5 0.81]" and svc = "example_services []"
        and request = example_request] md
    by (simp add: svc [symmetric])
qed

lemma lit_image_text: "lit ''image'' \<noteq> lit ''text''"
  by (simp add: lit_def)

lemma imageResults_append: "imageResults (xs @ ys) = imageResults xs @ imageResults ys"
  by (simp add: imageResults_def)

lemma textResults_append: "textResults (xs @ ys) = textResults xs @ textResults ys"
  by (simp add: textResults_def)

text \<open>
  C4: an image match whose URL is absent or empty is not among the images, whatever its
  score; the images are those computed without it, and the drop is silent: the response
  and the calls of the handler are the same as without the match, so no error comes of it.
\<close>

theorem image_without_url_dropped:
  assumes "metadata m = Some md"
    and "content_type md = lit ''image''"
    and "image_url md = None \<or> image_url md = Some []"
  shows "images_of (xs @ m # ys) = images_of (xs @ ys)
    \<and> POST (svc\<lparr>index_query := \<lambda>v. Inr (Some (xs @ m # ys))\<rparr>) request
      = POST (svc\<lparr>index_query := \<lambda>v. Inr (Some (xs @ ys))\<rparr>) request"
proof -
  have no_url: "\<not> truthy (image_url md)"
    using assms(3) by (auto simp: truthy_def)
  have no_image: "imageResults (contextItems [m]) = []"
    using assms(1) no_url
    by (simp add: contextItems_single imageResults_def item_of_def)
  have no_text: "textResults (contextItems [m]) = []"
    using assms(1,2) lit_image_text
    by (simp add: contextItems_single textResults_def item_of_def)
  have images: "imageResults (contextItems (xs @ m # ys)) = imageResults (contextItems (xs @ ys))"
    using contextItems_insert [of xs m ys] contextItems_append [of xs ys]
    by (simp add: imageResults_append no_image)
  have texts: "textResults (contextItems (xs @ m # ys)) = textResults (contextItems (xs @ ys))"
    using contextItems_insert [of xs m ys] contextItems_append [of xs ys]
    by (simp add: textResults_append no_text)
  have "POST (svc\<lparr>index_query := \<lambda>v. Inr (Some (xs @ m # ys))\<rparr>) request
      = POST (svc\<lparr>index_query := \<lambda>v. Inr (Some (xs @ ys))\<rparr>) request"
    by (rule POST_matches_cong) (rule answer_cong_items [OF texts images])
  then show ?thesis
    by (simp add: images_of_def images)
qed

theorem image_without_url_dropped_witness:
  "images_of [image_match ''Paper'' 7 0.9 None, image_match ''Paper'' 8 0.6 (Some (lit ''u''))]
     = images_of [image_match ''Paper'' 8 0.6 (Some (lit ''u''))]
   \<and> images_of [image_match ''Paper'' 7 0.9 (Some []), image_match ''Paper'' 8 0.6 (Some (lit ''u''))]
     = images_of [image_match ''Paper'' 8 0.6 (Some (lit ''u''))]
   \<and> POST (example_services
          [image_match ''Paper'' 7 0.9 None, image_match ''Paper'' 8 0.6 (Some (lit ''u''))])
         example_request
     = POST (example_services [image_match ''Paper'' 8 0.6 (Some (lit ''u''))]) example_request
   \<and> keep_match (image_match ''Paper'' 7 0.9 None)"
proof -
  have svc: "example_services ms = (example_services [])\<lparr>index_query := \<lambda>v. Inr (Some ms)\<rparr>" for ms
    by (simp add: example_services_def)
  have keep: "keep_match (image_match ''Paper'' 7 0.9 None)"
    by (simp add: keep_match_def image_match_def or_zero_def)
  have md: "metadata (image_match ''Paper'' 7 0.9 u)
      = Some \<lparr>content_type = lit ''image'', paper_title = lit ''Paper'',
          page_number = SafeInteger False 7,
          md_content = lit ''caption'', image_url = u, paper_id = None\<rparr>" for u
    by (simp add: image_match_def)
  have absent: "images_of ([] @ image_match ''Paper'' 7 0.9 None
        # [image_match ''Paper'' 8 0.6 (Some (lit ''u''))])
      = images_of ([] @ [image_match ''Paper'' 8 0.6 (Some (lit ''u''))])
    \<and> POST ((example_services [])\<lparr>index_query := \<lambda>v. Inr (Some ([] @ image_match ''Paper'' 7 0.9 None
        # [image_match ''Paper'' 8 0.6 (Some (lit ''u''))]))\<rparr>) example_request
      = POST ((example_services [])\<lparr>index_query := \<lambda>v. Inr (Some ([]
        @ [image_match ''Paper'' 8 0.6 (Some (lit ''u''))]))\<rparr>) example_request"
    by (rule image_without_url_dropped [OF md]) simp_all
  have empty: "images_of ([] @ image_match ''Paper'' 7 0.9 (Some [])
        # [image_match ''Paper'' 8 0.6 (Some (lit ''u''))])
      = images_of ([] @ [image_match ''Paper'' 8 0.6 (Some (lit ''u''))])
    \<and> POST ((example_services [])\<lparr>index_query := \<lambda>v. Inr (Some ([] @ image_match ''Paper'' 7 0.9 (Some [])
        # [image_match ''Paper'' 8 0.6 (Some (lit ''u''))]))\<rparr>) example_request
      = POST ((example_services [])\<lparr>index_query := \<lambda>v. Inr (Some ([]
        @ [image_match ''Paper'' 8 0.6 (Some (lit ''u''))]))\<rparr>) example_request"
    by (rule image_without_url_dropped [OF md]) simp_all
  show ?thesis
    using absent empty keep by (simp add: svc [symmetric])
qed

section \<open>Validation and failures\<close>

text \<open>
  C6, as amended: when \<open>message\<close> is missing or empty in a body that is JSON and not
  \<open>null\<close>, the handler answers 400 with \<open>{error: "Message is required"}\<close>; when the body
  is not JSON or is \<open>null\<close>, it answers 500 with the generic error.  In each of these
  cases it calls none of the three services: the log holds nothing, or the console
  message alone.
\<close>

theorem request_without_message:
  "POST svc (JsonBody \<lparr>message = None, chatHistory = h\<rparr>)
     = (\<lparr>status = 400, body = ErrorBody (lit ''Message is required'')\<rparr>, [])
   \<and> POST svc (JsonBody \<lparr>message = Some [], chatHistory = h\<rparr>)
     = (\<lparr>status = 400, body = ErrorBody (lit ''Message is required'')\<rparr>, [])
   \<and> POST svc JsonNull
     = (\<lparr>status = 500,
         body = ErrorBody (lit ''Failed to process your request. Please try again.'')\<rparr>,
        [ConsoleError TypeError])
   \<and> POST svc NotJson
     = (\<lparr>status = 500,
         body = ErrorBody (lit ''Failed to process your request. Please try again.'')\<rparr>,
        [ConsoleError SyntaxError])"
  by (simp add: POST_def truthy_def bad_request_def failure_def server_error_def)

text \<open>
  A request with no body, or with the body \<open>null\<close>, has no message and is not answered
  with 400.
\<close>

theorem missing_message_400_counterexample:
  "status (fst (POST (example_services []) JsonNull)) = 500
   \<and> status (fst (POST (example_services []) NotJson)) = 500
   \<and> status (fst (POST (example_services []) JsonNull)) \<noteq> 400
   \<and> status (fst (POST (example_services []) NotJson)) \<noteq> 400"
  by (simp add: POST_def failure_def server_error_def)

lemma length_slice_0: "0 \<le> n \<Longrightarrow> length (slice xs 0 n) \<le> nat n"
  by (simp add: slice_def relative_index_def Let_def)

lemma answer_body:
  assumes "answer svc calls msg history ms = (r, cs)" and "body r = ChatBody a imgs srcs"
  shows "imgs = images_of ms \<and> srcs = sources_of ms"
  using assms
  by (auto simp: answer_def Let_def failure_def server_error_def success_def images_of_def
      sources_of_def split: sum.splits list.splits)

lemma POST_body:
  assumes "POST svc request = (r, cs)" and "body r = ChatBody a imgs srcs"
  shows "\<exists>ms. imgs = images_of ms \<and> srcs = sources_of ms"
proof (cases request)
  case NotJson
  with assms show ?thesis
    by (auto simp: POST_def failure_def server_error_def)
next
  case JsonNull
  with assms show ?thesis
    by (auto simp: POST_def failure_def server_error_def)
next
  case (JsonBody b)
  show ?thesis
  proof (cases "truthy (message b)")
    case False
    with JsonBody assms show ?thesis
      by (auto simp: POST_def bad_request_def)
  next
    case True
    with JsonBody assms show ?thesis
      by (auto simp: POST_def Let_def failure_def server_error_def
          split: sum.splits list.splits dest: answer_body)
  qed
qed

section \<open>The response\<close>

text \<open>
  C5: whenever the handler answers with \<open>{message, images, sources}\<close>, the images are
  at most 4 and the sources at most 6, whatever the services returned.
\<close>

theorem response_lists_bounded:
  assumes "POST svc request = (r, calls)" and "body r = ChatBody a imgs srcs"
  shows "length imgs \<le> 4 \<and> length srcs \<le> 6"
proof -
  obtain ms where "imgs = images_of ms" and "srcs = sources_of ms"
    using POST_body [OF assms] by blast
  then show ?thesis
    using length_slice_0 [of 4 "imageResults (contextItems ms)"]
      length_slice_0 [of 6 "sources (build_sourceMap (textResults (contextItems ms)))"]
    by (simp add: images_of_def sources_of_def response_images_def response_sources_def)
qed

lemma POST_example:
  "POST (example_services ms) example_request =
     (\<lparr>status = 200, body = ChatBody (lit ''answer'') (images_of ms) (sources_of ms)\<rparr>,
      [Embed (lit ''question''), Query [0.5],
       Generate (messages (lit ''question'') [] (assembled_context ms))])"
  by (simp add: POST_def example_services_def example_request_def truthy_def or_empty_def
      or_nil_def lit_def answer_def Let_def success_def images_of_def sources_of_def
      assembled_context_def)

theorem response_lists_bounded_witness:
  "body (fst (POST (example_services twelve_matches) example_request))
     = ChatBody (lit ''answer'') (images_of twelve_matches) (sources_of twelve_matches)
   \<and> length (imageResults (contextItems twelve_matches)) = 5
   \<and> length (sources (build_sourceMap (textResults (contextItems twelve_matches)))) = 7
   \<and> length (images_of twelve_matches) \<le> 4
   \<and> length (sources_of twelve_matches) \<le> 6"
proof -
  have b: "body (fst (POST (example_services twelve_matches) example_request))
     = ChatBody (lit ''answer'') (images_of twelve_matches) (sources_of twelve_matches)"
    by (simp add: POST_example)
  have five: "length (imageResults (contextItems twelve_matches)) = 5"
    by code_simp
  have seven: "length (sources (build_sourceMap (textResults (contextItems twelve_matches)))) = 7"
    by code_simp
  show ?thesis
    using response_lists_bounded [OF prod.collapse [symmetric] b] b five seven by simp
qed

lemma POST_answer:
  assumes "truthy (message b)"
    and "embeddings_create svc (or_empty (message b)) = Inr (v # vs)"
    and "index_query svc v = Inr found"
  shows "POST svc (JsonBody b)
    = answer svc [Embed (or_empty (message b)), Query v] (or_empty (message b))
        (or_nil (chatHistory b)) (or_nil found)"
  using assms by (simp add: POST_def Let_def or_nil_def)

lemma answer_rejected:
  assumes "c \<in> set (snd (answer svc calls msg history ms))" and "rejected svc c"
    and "\<forall>c \<in> set calls. \<not> rejected svc c"
  shows "fst (answer svc calls msg history ms) = server_error"
  using assms
  by (auto simp: answer_def Let_def failure_def rejected_def split: sum.splits list.splits)

text \<open>
  C7: when a call the handler makes to a service is rejected, be it the embedding, the
  search or the generation, the response is status 500 with the body
  \<open>{error: "Failed to process your request. Please try again."}\<close> and nothing else;
  the response is the same for the three stages.
\<close>

theorem downstream_failure_is_500:
  assumes "c \<in> set (snd (POST svc request))" and "rejected svc c"
  shows "fst (POST svc request)
    = \<lparr>status = 500,
       body = ErrorBody (lit ''Failed to process your request. Please try again.'')\<rparr>"
proof (cases request)
  case NotJson
  with assms show ?thesis
    by (auto simp: POST_def failure_def rejected_def)
next
  case JsonNull
  with assms show ?thesis
    by (auto simp: POST_def failure_def rejected_def)
next
  case (JsonBody b)
  show ?thesis
  proof (cases "truthy (message b)")
    case False
    with JsonBody assms show ?thesis
      by (simp add: POST_def)
  next
    case True
    show ?thesis
    proof (cases "embeddings_create svc (or_empty (message b))")
      case (Inl e)
      with JsonBody True show ?thesis
        by (simp add: POST_def failure_def server_error_def)
    next
      case (Inr vectors)
      note embedded = this
      show ?thesis
      proof (cases vectors)
        case Nil
        with JsonBody True embedded show ?thesis
          by (simp add: POST_def failure_def server_error_def)
      next
        case (Cons v vs)
        show ?thesis
        proof (cases "index_query svc v")
          case (Inl e)
          with JsonBody True embedded Cons show ?thesis
            by (simp add: POST_def failure_def server_error_def)
        next
          case (Inr found)
          have "\<forall>c \<in> set [Embed (or_empty (message b)), Query v]. \<not> rejected svc c"
            using embedded Inr by (simp add: rejected_def)
          moreover have post: "POST svc request
              = answer svc [Embed (or_empty (message b)), Query v] (or_empty (message b))
                  (or_nil (chatHistory b)) (or_nil found)"
            using JsonBody True embedded Cons Inr by (simp add: POST_answer)
          ultimately have "fst (POST svc request) = server_error"
            using assms by (simp add: answer_rejected [of c])
          then show ?thesis
            by (simp add: server_error_def)
        qed
      qed
    qed
  qed
qed

theorem downstream_failure_is_500_witness:
  "Embed (lit ''question'') \<in> set (snd (POST failing_embedding example_request))
   \<and> rejected failing_embedding (Embed (lit ''question''))
   \<and> fst (POST failing_embedding example_request)
     = \<lparr>status = 500,
        body = ErrorBody (lit ''Failed to process your request. Please try again.'')\<rparr>
   \<and> Query [0.5] \<in> set (snd (POST failing_search example_request))
   \<and> rejected failing_search (Query [0.5])
   \<and> fst (POST failing_search example_request)
     = \<lparr>status = 500,
        body = ErrorBody (lit ''Failed to process your request. Please try again.'')\<rparr>
   \<and> Generate (messages (lit ''question'') [] (assembled_context []))
       \<in> set (snd (POST failing_generation example_request))
   \<and> rejected failing_generation (Generate (messages (lit ''question'') [] (assembled_context [])))
   \<and> fst (POST failing_generation example_request)
     = \<lparr>status = 500,
        body = ErrorBody (lit ''Failed to process your request. Please try again.'')\<rparr>"
proof -
  have e1: "Embed (lit ''question'') \<in> set (snd (POST failing_embedding example_request))"
    by (simp add: POST_def failing_embedding_def example_services_def example_request_def
        truthy_def or_empty_def lit_def failure_def)
  have e2: "rejected failing_embedding (Embed (lit ''question''))"
    by (simp add: rejected_def failing_embedding_def)
  have s1: "Query [0.5] \<in> set (snd (POST failing_search example_request))"
    by (simp add: POST_def failing_search_def example_services_def example_request_def
        truthy_def or_empty_def lit_def failure_def)
  have s2: "rejected failing_search (Query [0.5])"
    by (simp add: rejected_def failing_search_def)
  have g1: "Generate (messages (lit ''question'') [] (assembled_context []))
       \<in> set (snd (POST failing_generation example_request))"
    by (simp add: POST_def failing_generation_def example_services_def example_request_def
        truthy_def or_empty_def or_nil_def lit_def failure_def answer_def Let_def
        assembled_context_def)
  have g2: "rejected failing_generation
      (Generate (messages (lit ''question'') [] (assembled_context [])))"
    by (simp add: rejected_def failing_generation_def)
  show ?thesis
    using downstream_failure_is_500 [OF e1 e2] downstream_failure_is_500 [OF s1 s2]
      downstream_failure_is_500 [OF g1 g2] e1 e2 s1 s2 g1 g2
    by simp
qed

lemma slice_from_minus_6: "slice_from h (- 6) = drop (length h - 6) h"
  by (simp add: slice_from_def relative_index_def max_def nat_diff_distrib')

lemma last_turns_drop: "last_turns n h = drop (length h - n) h"
  by (simp add: last_turns_def rev_take)

lemma turns_unmodified:
  "map (\<lambda>m. \<lparr>role = role m, msg_content = msg_content m\<rparr>) h = h"
  by (induction h) simp_all

lemma messages_last_turns:
  "messages msg h ctx
     = \<lparr>role = lit ''system'', msg_content = systemPrompt\<rparr> # last_turns 6 h @ [user_turn ctx msg]"
  by (simp add: messages_def slice_from_minus_6 last_turns_drop turns_unmodified)

lemma answer_Generate:
  assumes "Generate conversation \<in> set (snd (answer svc calls msg h ms))"
    and "Generate conversation \<notin> set calls"
  shows "conversation = messages msg h (assembled_context ms)"
  using assms
  by (auto simp: answer_def Let_def failure_def assembled_context_def
      split: sum.splits list.splits)

lemma POST_Generate:
  assumes "Generate conversation \<in> set (snd (POST svc (JsonBody b)))"
  shows "\<exists>ms. conversation
    = messages (or_empty (message b)) (or_nil (chatHistory b)) (assembled_context ms)"
proof (cases "truthy (message b)")
  case False
  with assms show ?thesis
    by (simp add: POST_def)
next
  case True
  show ?thesis
  proof (cases "embeddings_create svc (or_empty (message b))")
    case (Inl e)
    with True assms show ?thesis
      by (simp add: POST_def failure_def)
  next
    case (Inr vectors)
    note embedded = this
    show ?thesis
    proof (cases vectors)
      case Nil
      with True embedded assms show ?thesis
        by (simp add: POST_def failure_def)
    next
      case (Cons v vs)
      show ?thesis
      proof (cases "index_query svc v")
        case (Inl e)
        with True embedded Cons assms show ?thesis
          by (simp add: POST_def failure_def)
      next
        case (Inr found)
        have "POST svc (JsonBody b)
            = answer svc [Embed (or_empty (message b)), Query v] (or_empty (message b))
                (or_nil (chatHistory b)) (or_nil found)"
          using True embedded Cons Inr by (simp add: POST_answer)
        with assms have "conversation
            = messages (or_empty (message b)) (or_nil (chatHistory b))
                (assembled_context (or_nil found))"
          by (intro answer_Generate [where calls = "[Embed (or_empty (message b)), Query v]"])
            simp_all
        then show ?thesis by blast
      qed
    qed
  qed
qed

section \<open>The conversation\<close>

text \<open>
  C8: the conversation sent to the model is the system prompt, the last 6 turns of the
  history as they are and in their order (the whole history when it has at most 6
  turns), and the final user turn.
\<close>

theorem last_six_turns_forwarded:
  assumes "Generate conversation \<in> set (snd (POST svc (JsonBody b)))"
  shows "(\<exists>ctx. conversation
            = \<lparr>role = lit ''system'', msg_content = systemPrompt\<rparr>
              # last_turns 6 (or_nil (chatHistory b))
              @ [user_turn ctx (or_empty (message b))])
    \<and> length (last_turns 6 (or_nil (chatHistory b))) = min 6 (length (or_nil (chatHistory b)))
    \<and> (\<exists>older. or_nil (chatHistory b) = older @ last_turns 6 (or_nil (chatHistory b)))"
proof -
  obtain ms where "conversation
      = messages (or_empty (message b)) (or_nil (chatHistory b)) (assembled_context ms)"
    using POST_Generate [OF assms] by blast
  then have "\<exists>ctx. conversation
            = \<lparr>role = lit ''system'', msg_content = systemPrompt\<rparr>
              # last_turns 6 (or_nil (chatHistory b))
              @ [user_turn ctx (or_empty (message b))]"
    by (auto simp: messages_last_turns)
  moreover have "length (last_turns 6 h) = min 6 (length h)" for h
    by (simp add: last_turns_def)
  moreover have "\<exists>older. h = older @ last_turns 6 h" for h
    using append_take_drop_id [of "length h - 6" h]
    unfolding last_turns_drop by metis
  ultimately show ?thesis by blast
qed

theorem last_six_turns_forwarded_witness:
  "Generate (messages (lit ''question'') eight_turns (assembled_context []))
     \<in> set (snd (POST (example_services [])
          (JsonBody \<lparr>message = Some (lit ''question''), chatHistory = Some eight_turns\<rparr>)))
   \<and> last_turns 6 eight_turns
     = [\<lparr>role = lit ''user'', msg_content = lit ''q2''\<rparr>,
        \<lparr>role = lit ''assistant'', msg_content = lit ''a2''\<rparr>,
        \<lparr>role = lit ''user'', msg_content = lit ''q3''\<rparr>,
        \<lparr>role = lit ''assistant'', msg_content = lit ''a3''\<rparr>,
        \<lparr>role = lit ''user'', msg_content = lit ''q4''\<rparr>,
        \<lparr>role = lit ''assistant'', msg_content = lit ''a4''\<rparr>]
   \<and> (\<exists>ctx. messages (lit ''question'') eight_turns (assembled_context [])
            = \<lparr>role = lit ''system'', msg_content = systemPrompt\<rparr>
              # last_turns 6 eight_turns @ [user_turn ctx (lit ''question'')])
   \<and> length (last_turns 6 eight_turns) = 6
   \<and> (\<exists>older. eight_turns = older @ last_turns 6 eight_turns)"
proof -
  have g: "Generate (messages (lit ''question'') eight_turns (assembled_context []))
     \<in> set (snd (POST (example_services [])
          (JsonBody \<lparr>message = Some (lit ''question''), chatHistory = Some eight_turns\<rparr>)))"
    by (simp add: POST_def example_services_def truthy_def or_empty_def or_nil_def lit_def
        answer_def Let_def assembled_context_def)
  have l: "last_turns 6 eight_turns
     = [\<lparr>role = lit ''user'', msg_content = lit ''q2''\<rparr>,
        \<lparr>role = lit ''assistant'', msg_content = lit ''a2''\<rparr>,
        \<lparr>role = lit ''user'', msg_content = lit ''q3''\<rparr>,
        \<lparr>role = lit ''assistant'', msg_content = lit ''a3''\<rparr>,
        \<lparr>role = lit ''user'', msg_content = lit ''q4''\<rparr>,
        \<lparr>role = lit ''assistant'', msg_content = lit ''a4''\<rparr>]"
    by (simp add: last_turns_def eight_turns_def)
  have n: "length eight_turns = 8"
    by (simp add: eight_turns_def)
  show ?thesis
    using last_six_turns_forwarded [OF g] g l n
    by (simp add: or_nil_def or_empty_def)
qed

lemma foldl_append_blocks: "foldl (\<lambda>s item. s @ f item) init xs = init @ concat (map f xs)"
  by (induction xs arbitrary: init) simp_all

lemma textResults_contextItems: "textResults (contextItems ms) = text_items ms"
  by (induction ms)
    (simp_all add: contextItems_def textResults_def text_items_def keep_match_def
      item_of_def split: option.splits)

lemma imageResults_contextItems: "imageResults (contextItems ms) = figure_items ms"
  by (induction ms)
    (simp_all add: contextItems_def imageResults_def figure_items_def keep_match_def
      item_of_def split: option.splits)

section \<open>The context string\<close>

lemma digit_char:
  assumes "d < 10"
  shows "is_digit (0x30 + of_nat d)"
    and "uint ((0x30 + of_nat d :: jschar) - 0x30) = int d"
    and "(0x30 + of_nat d :: jschar) = 0x30 \<longleftrightarrow> d = 0"
proof -
  from assms have "d = 0 \<or> d = 1 \<or> d = 2 \<or> d = 3 \<or> d = 4 \<or> d = 5 \<or> d = 6 \<or> d = 7
      \<or> d = 8 \<or> d = 9"
    by arith
  then show "is_digit (0x30 + of_nat d)"
    and "uint ((0x30 + of_nat d :: jschar) - 0x30) = int d"
    and "(0x30 + of_nat d :: jschar) = 0x30 \<longleftrightarrow> d = 0"
    by (auto simp: is_digit_def)
qed

lemma decimal_value_snoc: "decimal_value (ds @ [c]) = 10 * decimal_value ds + uint (c - 0x30)"
  by (simp add: decimal_value_def)

lemma digits_of_decimal:
  "decimal_numeral (digits_of n) \<and> decimal_value (digits_of n) = int n"
proof (induction n rule: digits_of.induct)
  case (1 n)
  show ?case
  proof (cases "n < 10")
    case True
    then have "digits_of n = [0x30 + of_nat n]"
      by (simp add: digits_of.simps)
    with digit_char [OF True] show ?thesis
      by (auto simp: decimal_numeral_def decimal_value_def)
  next
    case False
    let ?ds = "digits_of (n div 10)"
    from False have ds: "digits_of n = ?ds @ [0x30 + of_nat (n mod 10)]"
      by (simp add: digits_of.simps)
    from False 1 have num: "decimal_numeral ?ds" and val: "decimal_value ?ds = int (n div 10)"
      by simp_all
    have "?ds \<noteq> [0x30]"
    proof
      assume "?ds = [0x30]"
      then have "decimal_value ?ds = 0"
        by (simp add: decimal_value_def)
      with val False show False by simp
    qed
    with num have lead: "?ds \<noteq> [] \<and> hd ?ds \<noteq> 0x30 \<and> list_all is_digit ?ds"
      by (auto simp: decimal_numeral_def)
    have last: "n mod 10 < 10" by simp
    have "decimal_numeral (digits_of n)"
      using lead digit_char(1) [OF last]
      by (simp add: ds decimal_numeral_def)
    moreover have "decimal_value (digits_of n) = int n"
    proof -
      have "decimal_value (digits_of n) = 10 * int (n div 10) + int (n mod 10)"
        using val digit_char(2) [OF last] by (simp only: ds decimal_value_snoc)
      also have "\<dots> = int n"
        by (simp add: zdiv_int zmod_int)
      finally show ?thesis .
    qed
    ultimately show ?thesis by simp
  qed
qed

lemma number_to_string_decimal:
  "\<exists>digits. number_to_string (SafeInteger negative magnitude)
        = (if negative \<and> magnitude \<noteq> 0 then lit ''-'' else []) @ digits
      \<and> decimal_numeral digits \<and> decimal_value digits = uint magnitude"
proof -
  have "decimal_numeral (digits_of (unat magnitude))
      \<and> decimal_value (digits_of (unat magnitude)) = uint magnitude"
    using digits_of_decimal [of "unat magnitude"] by simp
  then show ?thesis
    by (auto simp: lit_def)
qed

text \<open>
  C9: the context string is the section of the text items followed by the section of
  the figure items; each section lists its items in the order of the matches, one tagged
  block per item with the paper title in quotes, the page number and the content (for a
  figure, its caption).  The page number stands in the block as JavaScript prints it: an
  integer as its decimal numeral, after a minus sign when negative.
\<close>

theorem context_string_layout:
  \<open>assembled_context ms
     = section_of (lit ''### Relevant Text from Research Papers:\<newline>\<newline>'')
         (map text_block (text_items ms))
       @ section_of (lit ''### Relevant Figures/Charts Available:\<newline>\<newline>'')
         (map figure_block (figure_items ms))
   \<and> textResults (contextItems ms) = text_items ms
   \<and> imageResults (contextItems ms) = figure_items ms
   \<and> text_block item
     = lit ''[Paper: "'' @ source item @ lit ''", Page '' @ number_to_string (page item)
       @ lit '']\<newline>'' @ content item @ lit ''\<newline>\<newline>''
   \<and> figure_block item
     = lit ''[Figure from: "'' @ source item @ lit ''", Page '' @ number_to_string (page item)
       @ lit '']\<newline>Figure Description: '' @ content item @ lit ''\<newline>\<newline>''
   \<and> (\<exists>digits. number_to_string (SafeInteger negative magnitude)
          = (if negative \<and> magnitude \<noteq> 0 then lit ''-'' else []) @ digits
        \<and> decimal_numeral digits \<and> decimal_value digits = uint magnitude)
   \<and> number_to_string (OtherNumber printed) = printed\<close>
proof -
  have "assembled_context ms
     = section_of (lit ''### Relevant Text from Research Papers:\<newline>\<newline>'')
         (map text_block (text_items ms))
       @ section_of (lit ''### Relevant Figures/Charts Available:\<newline>\<newline>'')
         (map figure_block (figure_items ms))"
    by (simp add: assembled_context_def contextString_def Let_def foldl_append_blocks
        section_of_def textResults_contextItems imageResults_contextItems)
  moreover have "\<exists>digits. number_to_string (SafeInteger negative magnitude)
          = (if negative \<and> magnitude \<noteq> 0 then lit ''-'' else []) @ digits
        \<and> decimal_numeral digits \<and> decimal_value digits = uint magnitude"
    by (rule number_to_string_decimal)
  ultimately show ?thesis
    by (simp add: textResults_contextItems imageResults_contextItems text_block_def
        figure_block_def)
qed

theorem context_string_layout_witness:
  \<open>assembled_context scenario
     = lit ''### Relevant Text from Research Papers:\<newline>\<newline>[Paper: "Paper", Page 5]\<newline>passage\<newline>\<newline>[Paper: "Paper", Page 12]\<newline>passage\<newline>\<newline>### Relevant Figures/Charts Available:\<newline>\<newline>[Figure from: "Paper", Page 7]\<newline>Figure Description: caption\<newline>\<newline>''
   \<and> assembled_context scenario
     = section_of (lit ''### Relevant Text from Research Papers:\<newline>\<newline>'')
         (map text_block (text_items scenario))
       @ section_of (lit ''### Relevant Figures/Charts Available:\<newline>\<newline>'')
         (map figure_block (figure_items scenario))
   \<and> map page (text_items scenario) = [SafeInteger False 5, SafeInteger False 12]
   \<and> map page (figure_items scenario) = [SafeInteger False 7]
   \<and> number_to_string (SafeInteger False 12) = lit ''12''
   \<and> decimal_numeral (lit ''12'') \<and> decimal_value (lit ''12'') = 12
   \<and> number_to_string (OtherNumber (lit ''1e+21'')) = lit ''1e+21''\<close>
proof -
  have shown: \<open>assembled_context scenario
     = lit ''### Relevant Text from Research Papers:\<newline>\<newline>[Paper: "Paper", Page 5]\<newline>passage\<newline>\<newline>[Paper: "Paper", Page 12]\<newline>passage\<newline>\<newline>### Relevant Figures/Charts Available:\<newline>\<newline>[Figure from: "Paper", Page 7]\<newline>Figure Description: caption\<newline>\<newline>''\<close>
    by code_simp
  have texts: "map page (text_items scenario) = [SafeInteger False 5, SafeInteger False 12]"
    by code_simp
  have figures: "map page (figure_items scenario) = [SafeInteger False 7]"
    by code_simp
  have twelve: "number_to_string (SafeInteger False 12) = lit ''12''"
    by code_simp
  have numeral: "decimal_numeral (lit ''12'') \<and> decimal_value (lit ''12'') = 12"
    by code_simp
  show ?thesis
    using context_string_layout [of scenario undefined False 12 "lit ''1e+21''"]
      shown texts figures twelve numeral
    by simp
qed

section \<open>The sources\<close>

lemma first_seen_cong:
  "set seen = set seen' \<Longrightarrow> first_seen seen ts = first_seen seen' ts"
proof (induction ts arbitrary: seen seen')
  case Nil
  show ?case by simp
next
  case (Cons t ts)
  have "first_seen (source t # seen) ts = first_seen (source t # seen') ts"
    using Cons.prems by (intro Cons.IH) simp
  moreover have "first_seen seen ts = first_seen seen' ts"
    using Cons.prems by (rule Cons.IH)
  ultimately show ?case
    using Cons.prems by simp
qed

lemma has_property_iff:
  "has_property sm key \<longleftrightarrow> key \<in> set (map fst sm @ object_prototype_keys)"
  by (auto simp: has_property_def map_of_eq_None_iff)

lemma foldl_add_source:
  "foldl add_source sm texts
     = sm @ map entry_of (first_seen (map fst sm @ object_prototype_keys) texts)"
proof (induction texts arbitrary: sm)
  case Nil
  show ?case by simp
next
  case (Cons t ts)
  show ?case
  proof (cases "has_property sm (source t)")
    case True
    then have step: "add_source sm t = sm"
      by (simp add: add_source_def)
    from True have "source t \<in> set (map fst sm @ object_prototype_keys)"
      by (simp only: has_property_iff)
    then show ?thesis
      using Cons.IH [of sm] by (simp add: step)
  next
    case False
    then have step: "add_source sm t = sm @ [entry_of t]"
      by (simp add: add_source_def entry_of_def)
    from False have new: "source t \<notin> set (map fst sm @ object_prototype_keys)"
      by (simp only: has_property_iff not_False_eq_True)
    have "first_seen (map fst (sm @ [entry_of t]) @ object_prototype_keys) ts
        = first_seen (source t # map fst sm @ object_prototype_keys) ts"
      by (rule first_seen_cong) (auto simp: entry_of_def)
    then show ?thesis
      using new Cons.IH [of "sm @ [entry_of t]"] by (simp add: step)
  qed
qed

lemma build_sourceMap_first_seen:
  "build_sourceMap texts = map entry_of (first_seen object_prototype_keys texts)"
  by (simp add: build_sourceMap_def foldl_add_source)

lemma first_seen_sources:
  "set (map source (first_seen seen ts)) = set (map source ts) - set seen"
  by (induction ts arbitrary: seen) auto

lemma first_seen_distinct: "distinct (map source (first_seen seen ts))"
proof (induction ts arbitrary: seen)
  case Nil
  show ?case by simp
next
  case (Cons t ts)
  have "source t \<notin> set (map source (first_seen (source t # seen) ts))"
    unfolding first_seen_sources by simp
  with Cons.IH show ?case by simp
qed

lemma first_seen_find:
  "i \<in> set (first_seen seen ts) \<Longrightarrow> find (\<lambda>j. source j = source i) ts = Some i"
proof (induction ts arbitrary: seen)
  case Nil
  then show ?case by simp
next
  case (Cons t ts)
  show ?case
  proof (cases "source t \<in> set seen")
    case True
    with Cons.prems have i: "i \<in> set (first_seen seen ts)" by simp
    then have "source i \<in> set (map source (first_seen seen ts))" by simp
    then have "source i \<notin> set seen"
      unfolding first_seen_sources by simp
    with True have "source t \<noteq> source i" by auto
    with Cons.IH [OF i] show ?thesis by simp
  next
    case False
    with Cons.prems consider "i = t" | "i \<in> set (first_seen (source t # seen) ts)"
      by auto
    then show ?thesis
    proof cases
      case 1
      then show ?thesis by simp
    next
      case 2
      then have "source i \<in> set (map source (first_seen (source t # seen) ts))" by simp
      then have "source t \<noteq> source i"
        unfolding first_seen_sources by auto
      with Cons.IH [OF 2] show ?thesis by simp
    qed
  qed
qed

lemma object_keys_set: "set (object_keys sm) = set (map fst sm)"
  by (auto simp: object_keys_def Let_def)

lemma object_keys_distinct: "distinct (map fst sm) \<Longrightarrow> distinct (object_keys sm)"
  by (auto simp: object_keys_def Let_def)

lemma object_keys_length: "length (object_keys sm) = length sm"
  using sum_length_filter_compl [of is_array_index "map fst sm"]
  by (simp add: object_keys_def Let_def)

lemma titles_of_entries:
  assumes "\<forall>(k, e) \<in> set sm. title e = k" and "set ks \<subseteq> set (map fst sm)"
  shows "map title (concat (map (\<lambda>key. case map_of sm key of None \<Rightarrow> [] | Some entry \<Rightarrow> [entry]) ks))
    = ks"
  using assms(2)
proof (induction ks)
  case Nil
  show ?case by simp
next
  case (Cons k ks)
  then have "k \<in> fst ` set sm" by simp
  then obtain e where e: "map_of sm k = Some e"
    by (metis map_of_eq_None_iff not_Some_eq)
  then have "(k, e) \<in> set sm" by (rule map_of_SomeD)
  with assms(1) have "title e = k" by auto
  with e Cons show ?case by simp
qed

lemma sources_titles:
  assumes "\<forall>(k, e) \<in> set sm. title e = k"
  shows "map title (sources sm) = object_keys sm"
  unfolding sources_def
  by (rule titles_of_entries [OF assms]) (simp add: object_keys_set)

lemma sources_member:
  assumes "s \<in> set (sources sm)"
  shows "\<exists>k. (k, s) \<in> set sm"
proof -
  from assms obtain k where "map_of sm k = Some s"
    by (auto simp: sources_def split: option.splits)
  then have "(k, s) \<in> set sm" by (rule map_of_SomeD)
  then show ?thesis ..
qed

lemma build_sourceMap_titles: "\<forall>(k, e) \<in> set (build_sourceMap texts). title e = k"
  by (auto simp: build_sourceMap_first_seen entry_of_def)

lemma build_sourceMap_keys:
  "map fst (build_sourceMap texts) = map source (first_seen object_prototype_keys texts)"
  by (simp add: build_sourceMap_first_seen entry_of_def comp_def)

lemma slice_0: "0 \<le> n \<Longrightarrow> slice xs 0 n = take (nat n) xs"
  by (simp add: slice_def relative_index_def Let_def min_def)

lemma response_sources_take:
  "response_sources texts = take 6 (sources (build_sourceMap texts))"
  by (simp add: response_sources_def slice_0)

lemma count_absent: "t \<notin> set ks \<Longrightarrow> filter (\<lambda>k. k = t) ks = []"
  by (induction ks) auto

lemma count_distinct: "distinct ks \<Longrightarrow> length (filter (\<lambda>k. k = t) ks) \<le> 1"
  by (induction ks) (auto simp: count_absent)

lemma count_distinct_member:
  "distinct ks \<Longrightarrow> t \<in> set ks \<Longrightarrow> length (filter (\<lambda>k. k = t) ks) = 1"
  by (induction ks) (auto simp: count_absent)

lemma count_titles:
  "length (filter (\<lambda>s. title s = t) xs) = length (filter (\<lambda>k. k = t) (map title xs))"
  by (simp add: filter_map comp_def)

lemma response_sources_titles:
  "map title (response_sources texts) = take 6 (object_keys (build_sourceMap texts))"
  by (simp add: response_sources_take take_map [symmetric] sources_titles
      build_sourceMap_titles)

lemma keys_distinct: "distinct (object_keys (build_sourceMap texts))"
  by (simp add: object_keys_distinct build_sourceMap_keys first_seen_distinct)

lemma response_sources_entry:
  assumes "s \<in> set (response_sources texts)"
  shows "Some (src_page s) = map_option page (find (\<lambda>i. source i = title s) texts)
    \<and> pdfFile s = createPdfFilename (title s)"
proof -
  from assms have "s \<in> set (sources (build_sourceMap texts))"
    unfolding response_sources_take by (rule in_set_takeD)
  then obtain k where "(k, s) \<in> set (build_sourceMap texts)"
    using sources_member by blast
  then obtain i where i: "i \<in> set (first_seen object_prototype_keys texts)"
    and "entry_of i = (k, s)"
    by (auto simp: build_sourceMap_first_seen)
  then have s: "s = snd (entry_of i)" by simp
  from first_seen_find [OF i] s show ?thesis
    by (simp add: entry_of_def)
qed

lemma index_value_decimal: "index_value = decimal_value"
  by (simp add: fun_eq_iff index_value_def decimal_value_def)

lemma is_array_index_canonical: "is_array_index = canonical_index"
  by (auto simp: fun_eq_iff is_array_index_def canonical_index_def decimal_numeral_def
      index_value_decimal)

lemma object_keys_key_order: "object_keys sm = key_order (map fst sm)"
  by (simp add: object_keys_def key_order_def Let_def index_value_decimal
      is_array_index_canonical)

lemma first_seen_unseen:
  "set seen \<inter> set (map source ts) = {} \<Longrightarrow> first_seen (seen @ acc) ts = first_seen acc ts"
proof (induction ts arbitrary: acc)
  case Nil
  show ?case by simp
next
  case (Cons t ts)
  from Cons.prems have new: "source t \<notin> set seen"
    and rest: "set seen \<inter> set (map source ts) = {}"
    by auto
  have "first_seen (source t # seen @ acc) ts = first_seen (seen @ source t # acc) ts"
    by (rule first_seen_cong) auto
  also have "\<dots> = first_seen (source t # acc) ts"
    by (rule Cons.IH [OF rest])
  finally show ?case
    using new Cons.IH [OF rest, of acc] by simp
qed

lemma count_distinct_titles:
  assumes "distinct (map title xs)"
  shows "length (filter (\<lambda>s. title s = t) xs) = (if t \<in> set (map title xs) then 1 else 0)"
proof (cases "t \<in> set (map title xs)")
  case True
  with assms have "length (filter (\<lambda>k. k = t) (map title xs)) = 1"
    by (rule count_distinct_member)
  with True show ?thesis
    by (simp only: count_titles if_True)
next
  case False
  then have "filter (\<lambda>k. k = t) (map title xs) = []"
    by (rule count_absent)
  with False show ?thesis
    by (simp only: count_titles if_False list.size)
qed

text \<open>
  C2, as amended: the sources of the response hold at most one entry per title, and an
  entry has the page of the first surviving text match of its title in the order of
  retrieval, and the file name derived from the title.  The entries are those of the
  first six titles: of the distinct titles of the surviving text matches, taken in the
  order of their first occurrence and listed as the keys of an object are (titles that
  are array indices first).  Every title that is not the name of a property that each
  object inherits is among these distinct titles; when no title is such a name, they
  are all the distinct titles.
\<close>

theorem sources_deduplicated:
  "distinct (map title (sources_of ms))
   \<and> length (filter (\<lambda>s. title s = t) (sources_of ms))
     = (if t \<in> set (map title (sources_of ms)) then 1 else 0)
   \<and> (\<forall>s \<in> set (sources_of ms).
        Some (src_page s)
          = map_option page (find (\<lambda>i. source i = title s) (textResults (contextItems ms)))
        \<and> pdfFile s = createPdfFilename (title s))
   \<and> (\<exists>seen. set seen \<subseteq> set object_prototype_keys
        \<and> map title (sources_of ms)
          = take 6 (key_order (map source (first_seen seen (textResults (contextItems ms))))))
   \<and> (set (map source (textResults (contextItems ms))) \<inter> set object_prototype_keys = {}
        \<longrightarrow> map title (sources_of ms)
          = take 6 (key_order (map source (first_seen [] (textResults (contextItems ms))))))"
proof -
  let ?texts = "textResults (contextItems ms)"
  have titles: "map title (sources_of ms)
      = take 6 (key_order (map source (first_seen object_prototype_keys ?texts)))"
    by (simp add: sources_of_def response_sources_titles object_keys_key_order
        build_sourceMap_keys)
  have one: "distinct (map title (sources_of ms))"
    unfolding sources_of_def response_sources_titles
    by (intro distinct_take keys_distinct)
  have entry: "Some (src_page s) = map_option page (find (\<lambda>i. source i = title s) ?texts)
      \<and> pdfFile s = createPdfFilename (title s)"
    if "s \<in> set (sources_of ms)" for s
    using that response_sources_entry [of s ?texts] by (simp add: sources_of_def)
  have kept: "\<exists>seen. set seen \<subseteq> set object_prototype_keys
      \<and> map title (sources_of ms) = take 6 (key_order (map source (first_seen seen ?texts)))"
    using titles by blast
  have plain: "map title (sources_of ms) = take 6 (key_order (map source (first_seen [] ?texts)))"
    if "set (map source ?texts) \<inter> set object_prototype_keys = {}"
  proof -
    from that have "set object_prototype_keys \<inter> set (map source ?texts) = {}"
      by blast
    then have "first_seen (object_prototype_keys @ []) ?texts = first_seen [] ?texts"
      by (rule first_seen_unseen)
    with titles show ?thesis by simp
  qed
  show ?thesis
    using one count_distinct_titles [OF one] entry kept plain by blast
qed

theorem sources_deduplicated_witness:
  "set (map source (textResults (contextItems twelve_matches))) \<inter> set object_prototype_keys = {}
   \<and> map source (first_seen [] (textResults (contextItems twelve_matches)))
     = [lit ''A'', lit ''B'', lit ''C'', lit ''D'', lit ''E'', lit ''F'', lit ''G'']
   \<and> map title (sources_of twelve_matches)
     = [lit ''A'', lit ''B'', lit ''C'', lit ''D'', lit ''E'', lit ''F'']
   \<and> map title (sources_of twelve_matches)
     = take 6 (key_order (map source (first_seen [] (textResults (contextItems twelve_matches)))))
   \<and> length (filter (\<lambda>s. title s = lit ''A'') (sources_of twelve_matches)) = 1
   \<and> length (filter (\<lambda>s. title s = lit ''G'') (sources_of twelve_matches)) = 0
   \<and> sources_of scenario
     = [\<lparr>title = lit ''Paper'', src_page = SafeInteger False 5, pdfFile = lit ''Paper.pdf''\<rparr>]
   \<and> map page (textResults (contextItems scenario)) = [SafeInteger False 5, SafeInteger False 12]
   \<and> map_option page (find (\<lambda>i. source i = lit ''Paper'') (textResults (contextItems scenario)))
     = Some (SafeInteger False 5)"
proof -
  have own: "set (map source (textResults (contextItems twelve_matches)))
      \<inter> set object_prototype_keys = {}"
    by code_simp
  have firsts: "map source (first_seen [] (textResults (contextItems twelve_matches)))
      = [lit ''A'', lit ''B'', lit ''C'', lit ''D'', lit ''E'', lit ''F'', lit ''G'']"
    by code_simp
  have titles: "map title (sources_of twelve_matches)
      = [lit ''A'', lit ''B'', lit ''C'', lit ''D'', lit ''E'', lit ''F'']"
    by code_simp
  have a: "lit ''A'' \<in> set (map title (sources_of twelve_matches))"
    and g: "lit ''G'' \<notin> set (map title (sources_of twelve_matches))"
    unfolding titles by (simp_all add: lit_def)
  have val: "sources_of scenario
      = [\<lparr>title = lit ''Paper'', src_page = SafeInteger False 5, pdfFile = lit ''Paper.pdf''\<rparr>]"
    by code_simp
  have pages: "map page (textResults (contextItems scenario))
      = [SafeInteger False 5, SafeInteger False 12]"
    by code_simp
  note twelve = sources_deduplicated [of twelve_matches]
  from twelve [of "lit ''A''"] own
  have order: "map title (sources_of twelve_matches)
      = take 6 (key_order (map source (first_seen [] (textResults (contextItems twelve_matches)))))"
    by blast
  from twelve [of "lit ''A''"] a
  have one: "length (filter (\<lambda>s. title s = lit ''A'') (sources_of twelve_matches)) = 1"
    by simp
  from twelve [of "lit ''G''"] g
  have none: "length (filter (\<lambda>s. title s = lit ''G'') (sources_of twelve_matches)) = 0"
    by simp
  from sources_deduplicated [of scenario "lit ''Paper''"]
  have "\<forall>s \<in> set (sources_of scenario).
      Some (src_page s)
        = map_option page (find (\<lambda>i. source i = title s) (textResults (contextItems scenario)))"
    by blast
  then have first: "map_option page
      (find (\<lambda>i. source i = lit ''Paper'') (textResults (contextItems scenario)))
      = Some (SafeInteger False 5)"
    unfolding val by simp
  show ?thesis
    using own firsts titles order one none val pages first by blast
qed

text \<open>
  The claim as the specification states it fails when more than 6 papers are cited: the
  seventh title has surviving text matches and no entry, the sources being cut to 6.
\<close>

theorem one_source_per_title_counterexample:
  "lit ''G'' \<in> set (map source (textResults (contextItems twelve_matches)))
   \<and> sources_of twelve_matches
     = [\<lparr>title = lit ''A'', src_page = SafeInteger False 1, pdfFile = lit ''A.pdf''\<rparr>,
        \<lparr>title = lit ''B'', src_page = SafeInteger False 3, pdfFile = lit ''B.pdf''\<rparr>,
        \<lparr>title = lit ''C'', src_page = SafeInteger False 5, pdfFile = lit ''C.pdf''\<rparr>,
        \<lparr>title = lit ''D'', src_page = SafeInteger False 7, pdfFile = lit ''D.pdf''\<rparr>,
        \<lparr>title = lit ''E'', src_page = SafeInteger False 9, pdfFile = lit ''E.pdf''\<rparr>,
        \<lparr>title = lit ''F'', src_page = SafeInteger False 11, pdfFile = lit ''F.pdf''\<rparr>]
   \<and> lit ''G'' \<notin> set (map title (sources_of twelve_matches))"
proof -
  have "lit ''G'' \<in> set (map source (textResults (contextItems twelve_matches)))"
    by code_simp
  moreover have val: "sources_of twelve_matches
     = [\<lparr>title = lit ''A'', src_page = SafeInteger False 1, pdfFile = lit ''A.pdf''\<rparr>,
        \<lparr>title = lit ''B'', src_page = SafeInteger False 3, pdfFile = lit ''B.pdf''\<rparr>,
        \<lparr>title = lit ''C'', src_page = SafeInteger False 5, pdfFile = lit ''C.pdf''\<rparr>,
        \<lparr>title = lit ''D'', src_page = SafeInteger False 7, pdfFile = lit ''D.pdf''\<rparr>,
        \<lparr>title = lit ''E'', src_page = SafeInteger False 9, pdfFile = lit ''E.pdf''\<rparr>,
        \<lparr>title = lit ''F'', src_page = SafeInteger False 11, pdfFile = lit ''F.pdf''\<rparr>]"
    by code_simp
  moreover have "lit ''G'' \<notin> set (map title (sources_of twelve_matches))"
    unfolding val by (simp add: lit_def)
  ultimately show ?thesis by blast
qed

text \<open>
  A title that names a property of \<open>Object.prototype\<close> never gets an entry:
  \<open>sourceMap[title]\<close> is truthy before anything is stored.
\<close>

theorem prototype_title_has_no_source:
  assumes "t \<in> set object_prototype_keys"
  shows "t \<notin> set (map title (sources_of ms))"
proof -
  have "set (take 6 (object_keys (build_sourceMap (textResults (contextItems ms)))))
      \<subseteq> set (object_keys (build_sourceMap (textResults (contextItems ms))))"
    by (rule set_take_subset)
  also have "\<dots> = set (map source (textResults (contextItems ms))) - set object_prototype_keys"
    by (simp only: object_keys_set build_sourceMap_keys first_seen_sources)
  finally show ?thesis
    using assms unfolding sources_of_def response_sources_titles by blast
qed

theorem prototype_title_has_no_source_witness:
  "lit ''constructor'' \<in> set object_prototype_keys
   \<and> lit ''constructor''
     \<in> set (map source (textResults (contextItems [text_match ''constructor'' 1 0.9])))
   \<and> lit ''constructor'' \<notin> set (map title (sources_of [text_match ''constructor'' 1 0.9]))
   \<and> sources_of [text_match ''constructor'' 1 0.9] = []"
proof -
  have key: "lit ''constructor'' \<in> set object_prototype_keys"
    by (simp add: object_prototype_keys_def)
  have "lit ''constructor''
      \<in> set (map source (textResults (contextItems [text_match ''constructor'' 1 0.9])))"
    by code_simp
  moreover have "sources_of [text_match ''constructor'' 1 0.9] = []"
    by code_simp
  ultimately show ?thesis
    using key prototype_title_has_no_source [OF key, of "[text_match ''constructor'' 1 0.9]"]
    by blast
qed

text \<open>
  \<open>Object.keys\<close> lists titles that are array indices first, in numeric order, whatever
  their rank in the retrieval.
\<close>

theorem index_titles_come_first:
  "map title (sources_of [text_match ''Zeta'' 1 0.9, text_match ''10'' 2 0.9, text_match ''9'' 3 0.9])
     = [lit ''9'', lit ''10'', lit ''Zeta'']"
  by code_simp

text \<open>
  The end-to-end scenario of the specification: one source, with page 5; one image; a
  context string with both passages and the figure.
\<close>

theorem scenario_end_to_end:
  \<open>sources_of scenario
     = [\<lparr>title = lit ''Paper'', src_page = SafeInteger False 5, pdfFile = lit ''Paper.pdf''\<rparr>]
   \<and> images_of scenario
     = [\<lparr>url = Some (lit ''u''), img_source = lit ''Paper'', img_page = SafeInteger False 7,
         description = lit ''caption'', img_pdfFile = lit ''Paper.pdf'', img_score = 0.6\<rparr>]
   \<and> assembled_context scenario
     = lit ''### Relevant Text from Research Papers:\<newline>\<newline>[Paper: "Paper", Page 5]\<newline>passage\<newline>\<newline>[Paper: "Paper", Page 12]\<newline>passage\<newline>\<newline>### Relevant Figures/Charts Available:\<newline>\<newline>[Figure from: "Paper", Page 7]\<newline>Figure Description: caption\<newline>\<newline>''\<close>
  by code_simp

end
